theory Spec2Isabelle
  imports Complex_Main "HOL-Library.Word"
begin

section \<open>Double-precision numbers\<close>

text \<open>
  The generator computes on C++ \<open>double\<close>s. A double is modelled as a real number or one of
  the three special values of IEEE 754: the two infinities and NaN. The arithmetic follows
  IEEE 754 on the special values: NaN is absorbing, \<open>inf - inf\<close> and \<open>0 * inf\<close> and \<open>0 / 0\<close> are
  NaN, and every comparison with NaN is false.

  On finite operands an operation returns \<open>fl r\<close> for its exact real result \<open>r\<close>. The function
  \<open>fl\<close> has the range of a double and nothing else of it: where rounding to nearest overflows
  (from \<open>2^1024 - 2^970\<close> on) it gives an infinity, where rounding to nearest gives zero (up to
  \<open>2^-1075\<close>) it gives zero, and in between it gives \<open>r\<close> itself. Rounding to 53 significant bits
  is not modelled, and neither is the sign of zero (the one zero of the model divides like
  \<open>+0\<close>). The theorems of this theory are therefore confined to what rounding and the sign of
  zero cannot change: the control flow of the entry point and of the schedule, and evaluations
  at inputs where every intermediate result either is exact (an infinity, a NaN, a zero, or a
  number that the operation yields exactly) or matters only through its sign, through its being
  finite, or through an overflow or underflow that is far from the threshold.
\<close>

datatype double = Fin (fin_val: real) | PInf | MInf | NaN

definition signed_inf :: "real \<Rightarrow> double" where
  "signed_inf s = (if 0 < s then PInf else if s < 0 then MInf else NaN)"

definition is_finite :: "double \<Rightarrow> bool" where
  "is_finite x = (case x of Fin a \<Rightarrow> True | PInf \<Rightarrow> False | MInf \<Rightarrow> False | NaN \<Rightarrow> False)"

definition fl :: "real \<Rightarrow> double" where
  "fl r = (if 2 ^ 1024 - 2 ^ 970 \<le> r then PInf
           else if r \<le> - (2 ^ 1024 - 2 ^ 970) then MInf
           else if \<bar>r\<bar> \<le> 1 / 2 ^ 1075 then Fin 0
           else Fin r)"

instantiation double :: "{uminus, plus, minus, times, divide, ord}"
begin

fun uminus_double :: "double \<Rightarrow> double" where
  "uminus_double (Fin a) = Fin (- a)"
| "uminus_double PInf = MInf"
| "uminus_double MInf = PInf"
| "uminus_double NaN = NaN"

fun plus_double :: "double \<Rightarrow> double \<Rightarrow> double" where
  "plus_double (Fin a) (Fin b) = fl (a + b)"
| "plus_double NaN y = NaN"
| "plus_double x NaN = NaN"
| "plus_double PInf MInf = NaN"
| "plus_double MInf PInf = NaN"
| "plus_double PInf y = PInf"
| "plus_double x PInf = PInf"
| "plus_double MInf y = MInf"
| "plus_double x MInf = MInf"

definition minus_double :: "double \<Rightarrow> double \<Rightarrow> double" where
  "minus_double x y = x + (- y)"

fun times_double :: "double \<Rightarrow> double \<Rightarrow> double" where
  "times_double (Fin a) (Fin b) = fl (a * b)"
| "times_double NaN y = NaN"
| "times_double x NaN = NaN"
| "times_double (Fin a) PInf = signed_inf a"
| "times_double (Fin a) MInf = signed_inf (- a)"
| "times_double PInf (Fin b) = signed_inf b"
| "times_double MInf (Fin b) = signed_inf (- b)"
| "times_double PInf PInf = PInf"
| "times_double PInf MInf = MInf"
| "times_double MInf PInf = MInf"
| "times_double MInf MInf = PInf"

fun divide_double :: "double \<Rightarrow> double \<Rightarrow> double" where
  "divide_double (Fin a) (Fin b) = (if b = 0 then signed_inf a else fl (a / b))"
| "divide_double NaN y = NaN"
| "divide_double x NaN = NaN"
| "divide_double (Fin a) PInf = Fin 0"
| "divide_double (Fin a) MInf = Fin 0"
| "divide_double PInf (Fin b) = (if b < 0 then MInf else PInf)"
| "divide_double MInf (Fin b) = (if b < 0 then PInf else MInf)"
| "divide_double PInf y = NaN"
| "divide_double MInf y = NaN"

fun less_double :: "double \<Rightarrow> double \<Rightarrow> bool" where
  "less_double (Fin a) (Fin b) = (a < b)"
| "less_double NaN y = False"
| "less_double x NaN = False"
| "less_double x MInf = False"
| "less_double PInf y = False"
| "less_double MInf y = True"
| "less_double x PInf = True"

fun less_eq_double :: "double \<Rightarrow> double \<Rightarrow> bool" where
  "less_eq_double (Fin a) (Fin b) = (a \<le> b)"
| "less_eq_double NaN y = False"
| "less_eq_double x NaN = False"
| "less_eq_double MInf y = True"
| "less_eq_double x PInf = True"
| "less_eq_double x MInf = False"
| "less_eq_double PInf y = False"

instance ..

end

instantiation double :: inverse
begin

definition inverse_double :: "double \<Rightarrow> double" where
  "inverse_double x = divide (Fin 1) x"

instance ..

end

text \<open>
  The functions of \<open>cmath\<close> the generator calls, with the special cases of the C standard
  (Annex F): \<open>exp(-inf) = 0\<close>, \<open>log(0) = -inf\<close>, \<open>log\<close> of a negative number is NaN, and the
  table of \<open>pow\<close>. On finite arguments they are the real functions, brought into the range of
  a double by \<open>fl\<close>: \<open>exp\<close> and \<open>pow\<close> overflow to an infinity and underflow to zero.
\<close>

fun std_exp :: "double \<Rightarrow> double" where
  "std_exp (Fin a) = fl (exp a)"
| "std_exp PInf = PInf"
| "std_exp MInf = Fin 0"
| "std_exp NaN = NaN"

fun std_log :: "double \<Rightarrow> double" where
  "std_log (Fin a) = (if 0 < a then fl (ln a) else if a = 0 then MInf else NaN)"
| "std_log PInf = PInf"
| "std_log MInf = NaN"
| "std_log NaN = NaN"

fun std_pow :: "double \<Rightarrow> double \<Rightarrow> double" where
  "std_pow (Fin a) (Fin b) =
     (if b = 0 \<or> a = 1 then Fin 1
      else if 0 < a then fl (a powr b)
      else if a = 0 then (if b < 0 then PInf else Fin 0)
      else if b \<in> \<int> then fl ((if even \<lfloor>b\<rfloor> then 1 else - 1) * (- a) powr b)
      else NaN)"
| "std_pow NaN (Fin b) = (if b = 0 then Fin 1 else NaN)"
| "std_pow (Fin a) NaN = (if a = 1 then Fin 1 else NaN)"
| "std_pow NaN y = NaN"
| "std_pow x NaN = NaN"
| "std_pow (Fin a) PInf = (if \<bar>a\<bar> < 1 then Fin 0 else if \<bar>a\<bar> = 1 then Fin 1 else PInf)"
| "std_pow (Fin a) MInf = (if \<bar>a\<bar> < 1 then PInf else if \<bar>a\<bar> = 1 then Fin 1 else Fin 0)"
| "std_pow PInf (Fin b) = (if b = 0 then Fin 1 else if b < 0 then Fin 0 else PInf)"
| "std_pow MInf (Fin b) =
     (if b = 0 then Fin 1 else if b < 0 then Fin 0
      else if b \<in> \<int> \<and> odd \<lfloor>b\<rfloor> then MInf else PInf)"
| "std_pow PInf PInf = PInf"
| "std_pow PInf MInf = Fin 0"
| "std_pow MInf PInf = PInf"
| "std_pow MInf MInf = Fin 0"


section \<open>Process parameters and the stationarity bound\<close>

text \<open>
  \<open>struct Process_M_t\<close>. The fields carry the prefix \<open>P_\<close> (the source's \<open>c\<close>, \<open>p\<close> and
  \<open>beta\<close> are also names of parameters). \<open>Time\<close> and \<open>Frequency\<close> are doubles with a unit.
\<close>

record Process_M_t =
  P_mu_0 :: double
  P_Tref :: double
  P_c :: double
  P_beta :: double
  P_Mr :: double
  P_p :: double
  P_ln_p :: double
  P_FK :: double

definition critical_FK ::
  "double \<Rightarrow> double \<Rightarrow> double \<Rightarrow> double \<Rightarrow> double \<Rightarrow> double \<Rightarrow> double \<Rightarrow> double" where
  "critical_FK Mmin Mmax p c Tref beta Mr =
     (p - Fin 1) *
       std_exp (p * std_log (c / Tref)) / c
       * (Fin 1 - std_exp (- beta * (Mmax - Mmin)))
       / (beta * std_exp (beta * (Mmin - Mr)) * (Mmax - Mmin))"

text \<open>The constructor \<open>Process_M_t::Process_M_t\<close>.\<close>

definition Process_M_t_init ::
  "double \<Rightarrow> double \<Rightarrow> double \<Rightarrow> double \<Rightarrow> double \<Rightarrow> double \<Rightarrow> double \<Rightarrow> double \<Rightarrow> double
     \<Rightarrow> Process_M_t" where
  "Process_M_t_init mu_0 Tref c beta Mr p Mmin Mmax offspring_fraction =
     \<lparr>P_mu_0 = mu_0, P_Tref = Tref, P_c = c, P_beta = beta,
      P_Mr = Mr, P_p = p, P_ln_p = std_log p,
      P_FK = critical_FK Mmin Mmax p c Tref beta Mr * offspring_fraction\<rparr>"


section \<open>Samplers\<close>

definition f :: "double \<Rightarrow> Process_M_t \<Rightarrow> double" where
  "f M process = std_exp (P_beta process * (M - P_Mr process))"

definition Lambda_i_oo :: "double \<Rightarrow> double \<Rightarrow> double \<Rightarrow> Process_M_t \<Rightarrow> double" where
  "Lambda_i_oo ti t_l Mi process =
     (let l_1mp = Fin 1 - P_p process
      in - f Mi process * P_Tref process * P_FK process / l_1mp *
           std_pow ((t_l - ti + P_c process) / P_Tref process) l_1mp)"

text \<open>
  The parameter \<open>tl\<close> of the source is \<open>t_l\<close> here (\<open>tl\<close> is the tail of a list in HOL).
  \<open>std::optional<Time>\<close> is \<open>double option\<close>: \<open>None\<close> is the empty optional.
\<close>

definition next_single_occurrence ::
  "double \<Rightarrow> double \<Rightarrow> double \<Rightarrow> double \<Rightarrow> Process_M_t \<Rightarrow> double option" where
  "next_single_occurrence q ti Mi t_l process =
     (if q \<le> std_exp (- Lambda_i_oo ti t_l Mi process) then None
      else
        let l_1mp = Fin 1 - P_p process
        in Some (ti - P_c process + P_Tref process * std_exp (
             Fin 1 / l_1mp * std_log (
               std_pow ((t_l - ti + P_c process) / P_Tref process) l_1mp
               - l_1mp / (f Mi process * P_FK process * P_Tref process) * std_log q))))"

definition next_background_occurrence :: "double \<Rightarrow> double \<Rightarrow> Process_M_t \<Rightarrow> double" where
  "next_background_occurrence q t_l process = t_l - std_log q / P_mu_0 process"

definition draw_magnitude :: "double \<Rightarrow> double \<Rightarrow> double \<Rightarrow> double \<Rightarrow> double" where
  "draw_magnitude q Mmin Mmax beta =
     Mmin - std_log (Fin 1 - q * (Fin 1 - std_exp (- beta * (Mmax - Mmin)))) / beta"


section \<open>The event schedule\<close>

text \<open>
  \<open>struct excitement_t\<close>, one open descendant stream; its fields carry the prefix \<open>e_\<close>. The
  two comparison operators are reversed on purpose in the source, so that the library's
  max-heap gives the entry with the smallest \<open>tnext\<close>.
\<close>

record excitement_t =
  e_ti :: double
  e_M :: double
  e_tnext :: double

definition excitement_greater :: "excitement_t \<Rightarrow> excitement_t \<Rightarrow> bool" where
  "excitement_greater a other = (e_tnext a < e_tnext other)"

definition excitement_less :: "excitement_t \<Rightarrow> excitement_t \<Rightarrow> bool" where
  "excitement_less a other = (e_tnext a > e_tnext other)"

text \<open>
  \<open>std::priority_queue\<close> of \<open>excitement_t\<close> is library code. Its contract: \<open>top()\<close> is an entry that
  is not less (by \<open>operator<\<close>) than any other entry, and \<open>pop()\<close> removes it. The model keeps the
  entries in a list with the top at the head; \<open>push\<close> inserts an entry before the first entry
  that is less than it. Which of several entries with the same \<open>tnext\<close> the library has on top
  is left open by the C++ standard, and so is the order of the queue once a \<open>tnext\<close> is NaN
  (the comparison is then no ordering); the model has the entry pushed first. No theorem below
  depends on the order of two queued entries with equal or NaN candidate times.
\<close>

fun pq_push :: "excitement_t \<Rightarrow> excitement_t list \<Rightarrow> excitement_t list" where
  "pq_push x [] = [x]"
| "pq_push x (y # ys) = (if excitement_less y x then x # y # ys else y # pq_push x ys)"

text \<open>
  The variables the closure \<open>next_event\<close> captures and changes, with the prefix \<open>s_\<close>: the
  current time and magnitude, the next background candidate, the queue, and the state of the
  random number generator. The generator (\<open>std::mt19937_64\<close> seeded once and read through one
  \<open>std::uniform_real_distribution<double>(0.0, 1.0)\<close>) is library code and a parameter of the
  model: \<open>u k\<close> is the value of the \<open>k\<close>-th call \<open>uniform(rng)\<close> after seeding, counted from
  \<open>0\<close>, and \<open>s_rng\<close> is the number of calls made so far.
\<close>

record sim_state =
  s_rng :: nat
  s_t :: double
  s_M :: double
  s_next_bg :: double
  s_descendants :: "excitement_t list"

text \<open>The first branch of \<open>next_event\<close>: the background candidate is the next event.\<close>

definition background_event :: "(nat \<Rightarrow> double) \<Rightarrow> Process_M_t \<Rightarrow> sim_state \<Rightarrow> sim_state" where
  "background_event u process st =
     (let t = s_next_bg st
      in st\<lparr>s_rng := s_rng st + 1, s_t := t,
             s_next_bg := next_background_occurrence (u (s_rng st)) t process\<rparr>)"

text \<open>
  The second branch: \<open>event\<close> is the top of the queue and \<open>rest\<close> the queue after \<open>pop()\<close>.
\<close>

definition descendant_event ::
  "(nat \<Rightarrow> double) \<Rightarrow> Process_M_t \<Rightarrow> excitement_t \<Rightarrow> excitement_t list \<Rightarrow> sim_state \<Rightarrow> sim_state"
  where
  "descendant_event u process event rest st =
     (let t = e_tnext event;
          tnext = next_single_occurrence (u (s_rng st)) (e_ti event) (e_M event) t process
      in st\<lparr>s_rng := s_rng st + 1, s_t := t,
             s_descendants :=
               (case tnext of None \<Rightarrow> rest
                | Some tn \<Rightarrow> pq_push (event\<lparr>e_tnext := tn\<rparr>) rest)\<rparr>)"

text \<open>
  The closure \<open>next_event\<close>, in the three steps its comments name. First "get the next
  occurrence time": the branch on \<open>descendants.empty() || next_bg < descendants.top().tnext\<close>.
\<close>

definition next_occurrence :: "(nat \<Rightarrow> double) \<Rightarrow> Process_M_t \<Rightarrow> sim_state \<Rightarrow> sim_state" where
  "next_occurrence u process st =
     (case s_descendants st of
        [] \<Rightarrow> background_event u process st
      | event # rest \<Rightarrow>
          if s_next_bg st < e_tnext event then background_event u process st
          else descendant_event u process event rest st)"

text \<open>Then "get the next magnitude" and "check whether this earthquake triggers another".\<close>

definition next_event ::
  "(nat \<Rightarrow> double) \<Rightarrow> Process_M_t \<Rightarrow> double \<Rightarrow> double \<Rightarrow> double \<Rightarrow> sim_state \<Rightarrow> sim_state" where
  "next_event u process Mmin Mmax beta st =
     (let st1 = next_occurrence u process st;
          M = draw_magnitude (u (s_rng st1)) Mmin Mmax beta;
          tnext = next_single_occurrence (u (s_rng st1 + 1)) (s_t st1) M (s_t st1) process
      in st1\<lparr>s_rng := s_rng st1 + 2, s_M := M,
              s_descendants :=
                (case tnext of None \<Rightarrow> s_descendants st1
                 | Some tn \<Rightarrow>
                     pq_push \<lparr>e_ti = s_t st1, e_M = M, e_tnext = tn\<rparr> (s_descendants st1))\<rparr>)"

text \<open>
  The state before the first event: time \<open>0\<close>, the magnitude a quiet NaN, the first background
  candidate drawn, the queue empty.
\<close>

definition initial_state :: "(nat \<Rightarrow> double) \<Rightarrow> Process_M_t \<Rightarrow> sim_state" where
  "initial_state u process =
     (let t = Fin 0;
          M = NaN;
          next_bg = next_background_occurrence (u 0) t process
      in \<lparr>s_rng = 1, s_t = t, s_M = M, s_next_bg = next_bg, s_descendants = []\<rparr>)"

section \<open>The simulation driver\<close>

text \<open>
  \<open>size_t\<close> is a 64-bit word. The first loop, \<open>while (n < N_skip) { next_event(); ++n; }\<close>,
  throws the warm-up events away.
\<close>

lemma unat_inc_less:
  fixes n m :: "64 word"
  assumes "n < m"
  shows "unat (n + 1) = Suc (unat n)"
proof -
  have "unat n < unat m" using assms by (simp add: word_less_nat_alt)
  moreover have "unat m < 2 ^ 64" using unsigned_less [of m] by simp
  ultimately have "unat n + unat (1 :: 64 word) < 2 ^ LENGTH(64)" by simp
  then have "unat (n + 1) = unat n + unat (1 :: 64 word)" by (simp only: unat_add_lem)
  then show ?thesis by simp
qed

function skip_loop ::
  "(nat \<Rightarrow> double) \<Rightarrow> Process_M_t \<Rightarrow> double \<Rightarrow> double \<Rightarrow> double \<Rightarrow> 64 word
     \<Rightarrow> 64 word \<Rightarrow> sim_state \<Rightarrow> 64 word \<times> sim_state" where
  "skip_loop u process Mmin Mmax beta N_skip n st =
     (if n < N_skip
      then skip_loop u process Mmin Mmax beta N_skip (n + 1) (next_event u process Mmin Mmax beta st)
      else (n, st))"
  by pat_completeness auto
termination
  by (relation "measure (\<lambda>(u, process, Mmin, Mmax, beta, N_skip, n, st). unat N_skip - unat n)")
    (auto simp: unat_inc_less word_less_nat_alt)

declare skip_loop.simps [simp del]

text \<open>
  The second loop, \<open>while (n < N + N_skip)\<close>, writes each event through the two output
  iterators and advances them; \<open>i\<close> is their common position, \<open>bound\<close> the value of
  \<open>N + N_skip\<close> (a sum of two \<open>size_t\<close>, which wraps around).
\<close>

function fill_loop ::
  "(nat \<Rightarrow> double) \<Rightarrow> Process_M_t \<Rightarrow> double \<Rightarrow> double \<Rightarrow> double \<Rightarrow> 64 word
     \<Rightarrow> 64 word \<Rightarrow> nat \<Rightarrow> sim_state \<Rightarrow> double list \<Rightarrow> double list
     \<Rightarrow> 64 word \<times> sim_state \<times> double list \<times> double list" where
  "fill_loop u process Mmin Mmax beta bound n i st Mi ti =
     (if n < bound
      then
        let st' = next_event u process Mmin Mmax beta st
        in fill_loop u process Mmin Mmax beta bound (n + 1) (i + 1) st'
             (Mi[i := s_M st']) (ti[i := s_t st'])
      else (n, st, Mi, ti))"
  by pat_completeness auto
termination
  by (relation "measure (\<lambda>(u, process, Mmin, Mmax, beta, bound, n, i, st, Mi, ti).
          unat bound - unat n)")
    (auto simp: unat_inc_less word_less_nat_alt)

declare fill_loop.simps [simp del]

text \<open>
  The entry point. \<open>U seed\<close> is the sequence of variates the generator yields when seeded with
  \<open>seed\<close>. A \<open>std::runtime_error\<close> is a value of \<open>error\<close> with the message of the source; the
  result is the error thrown, if any, and the two output buffers as the call leaves them.
  The quantities \<open>mu_0\<close> and \<open>c\<close> and the two buffers reach the source wrapped by the unit
  library, which is not part of the repository: here \<open>mu_0\<close> and \<open>c\<close> are the doubles that
  \<open>get\<close> returns, a buffer is the list of its slots, \<open>Mi.size()\<close> is its length as a \<open>size_t\<close>,
  and a write through an output iterator is an update of the list at the iterator's position.
\<close>

datatype error = runtime_error string

definition ETAS_generate_catalog_M_t ::
  "(64 word \<Rightarrow> nat \<Rightarrow> double) \<Rightarrow> double \<Rightarrow> double \<Rightarrow> double \<Rightarrow> double \<Rightarrow> double \<Rightarrow> double
     \<Rightarrow> double \<Rightarrow> double \<Rightarrow> 64 word \<Rightarrow> 64 word \<Rightarrow> double list \<Rightarrow> double list
     \<Rightarrow> error option \<times> double list \<times> double list" where
  "ETAS_generate_catalog_M_t U mu_0 Mmin Mmax beta p c Mr offspring_fraction N_skip seed Mi ti =
     (if Mmin \<ge> Mmax then (Some (runtime_error ''Mmin >= Mmax''), Mi, ti)
      else if p \<le> Fin 1 then (Some (runtime_error ''p <= 1''), Mi, ti)
      else if offspring_fraction \<ge> Fin 1
        then (Some (runtime_error ''Instable process (offspring ratio > 1)''), Mi, ti)
      else if offspring_fraction < Fin 0
        then (Some (runtime_error ''Offspring ratio needs to be non-negative.''), Mi, ti)
      else
        let N = (of_nat (length Mi) :: 64 word)
        in if (of_nat (length ti) :: 64 word) \<noteq> N
          then (Some (runtime_error ''Size of M and t not compatible''), Mi, ti)
          else
            let n = (0 :: 64 word);
                Tref = Fin 1;
                process = Process_M_t_init mu_0 Tref c beta Mr p Mmin Mmax offspring_fraction;
                u = U seed;
                st = initial_state u process;
                (n, st) = skip_loop u process Mmin Mmax beta N_skip n st;
                (n, st, Mi, ti) = fill_loop u process Mmin Mmax beta (N + N_skip) n 0 st Mi ti
            in (None, Mi, ti))"


text \<open>The four checks on the parameters at the head of the entry point all pass.\<close>

definition passes_sanity :: "double \<Rightarrow> double \<Rightarrow> double \<Rightarrow> double \<Rightarrow> bool" where
  "passes_sanity Mmin Mmax p offspring_fraction =
     (\<not> Mmin \<ge> Mmax \<and> \<not> p \<le> Fin 1 \<and> \<not> offspring_fraction \<ge> Fin 1
      \<and> \<not> offspring_fraction < Fin 0)"


text \<open>
  The state of the simulation of a call after \<open>k\<close> events, that is after \<open>k\<close> calls of
  \<open>next_event\<close> from the initial state.
\<close>

definition event_state ::
  "(64 word \<Rightarrow> nat \<Rightarrow> double) \<Rightarrow> double \<Rightarrow> double \<Rightarrow> double \<Rightarrow> double \<Rightarrow> double \<Rightarrow> double
     \<Rightarrow> double \<Rightarrow> double \<Rightarrow> 64 word \<Rightarrow> nat \<Rightarrow> sim_state" where
  "event_state U mu_0 Mmin Mmax beta p c Mr offspring_fraction seed k =
     (let process = Process_M_t_init mu_0 (Fin 1) c beta Mr p Mmin Mmax offspring_fraction;
          u = U seed
      in (next_event u process Mmin Mmax beta ^^ k) (initial_state u process))"


section \<open>Concrete inputs\<close>


definition unit_process :: Process_M_t where
  "unit_process = \<lparr>P_mu_0 = Fin 1, P_Tref = Fin 1, P_c = Fin 1, P_beta = Fin 1, P_Mr = Fin 0,
       P_p = Fin 2, P_ln_p = Fin (ln 2), P_FK = Fin 1\<rparr>"


text \<open>A generator that yields \<open>1/2\<close> forever, and one that does so for seven calls only.\<close>

definition half_generator :: "64 word \<Rightarrow> nat \<Rightarrow> double" where
  "half_generator seed k = Fin (1 / 2)"

definition half_prefix_generator :: "64 word \<Rightarrow> nat \<Rightarrow> double" where
  "half_prefix_generator seed k = (if k < 7 then Fin (1 / 2) else NaN)"


text \<open>
  The critical rate constant \<open>K*\<close> in the words of the specification, on the reals:
  \<open>(p-1) * c^(p-1) * (1 - e^(-beta*(Mmax-Mmin))) / (beta * (Mmax-Mmin))\<close>.
\<close>

definition K_star :: "real \<Rightarrow> real \<Rightarrow> real \<Rightarrow> real \<Rightarrow> real \<Rightarrow> real" where
  "K_star Mmin Mmax p c beta =
     (p - 1) * c powr (p - 1) * (1 - exp (- beta * (Mmax - Mmin))) / (beta * (Mmax - Mmin))"


section \<open>Special values and the range of a double\<close>

lemma minus_Fin: "Fin a - Fin b = fl (a - b)"
  by (simp add: minus_double_def)

lemma is_finite_simps [simp]:
  "is_finite (Fin a)" "\<not> is_finite PInf" "\<not> is_finite MInf" "\<not> is_finite NaN"
  by (simp_all add: is_finite_def)

lemma fl_zero [simp]: "fl 0 = Fin 0"
  by (simp add: fl_def)

lemma fl_in_range:
  "1 / 2 ^ 1075 < \<bar>r\<bar> \<Longrightarrow> \<bar>r\<bar> < 2 ^ 1024 - 2 ^ 970 \<Longrightarrow> fl r = Fin r"
  by (auto simp: fl_def)

lemma fl_overflow: "2 ^ 1024 - 2 ^ 970 \<le> r \<Longrightarrow> fl r = PInf"
  by (simp add: fl_def)

lemma fl_underflow: "0 \<le> r \<Longrightarrow> r \<le> 1 / 2 ^ 1075 \<Longrightarrow> fl r = Fin 0"
  by (simp add: fl_def)

lemma fl_numerals [simp]:
  "fl 1 = Fin 1" "fl (- 1) = Fin (- 1)" "fl 51 = Fin 51" "fl 1000000 = Fin 1000000"
  "fl (- 59) = Fin (- 59)"
  by (simp_all add: fl_def)

text \<open>NaN is absorbing, and no comparison with it holds.\<close>

lemma plus_NaN [simp]: "x + NaN = NaN" "NaN + x = NaN"
  by (cases x; simp)+

lemma minus_NaN [simp]: "x - NaN = NaN" "NaN - x = NaN"
  by (simp_all add: minus_double_def)

lemma times_NaN [simp]: "x * NaN = NaN" "NaN * x = NaN"
  by (cases x; simp)+

lemma divide_NaN [simp]: "x / NaN = NaN" "NaN / x = NaN"
  by (cases x; simp)+

lemma not_le_NaN [simp]: "\<not> x \<le> NaN" "\<not> NaN \<le> x"
  by (cases x; simp)+

lemma not_less_NaN [simp]: "\<not> x < NaN" "\<not> NaN < x"
  by (cases x; simp)+

text \<open>Bounds on the few values of \<open>exp\<close> and \<open>ln\<close> that the evaluations below meet.\<close>

lemma exp_one_bounds: "2 \<le> exp (1::real)" "exp (1::real) \<le> 3"
  using exp_ge_add_one_self [of "1::real"] exp_le by simp_all

lemma exp_minus_one_bounds: "1 / 3 \<le> exp (- 1 :: real)" "exp (- 1 :: real) \<le> 1 / 2"
  using exp_one_bounds by (simp_all add: exp_minus field_simps)

lemma fl_exp_minus_one: "fl (exp (- 1)) = Fin (exp (- 1))"
  using exp_minus_one_bounds by (intro fl_in_range) simp_all

lemma fl_one_minus_exp: "fl (1 - exp (- 1)) = Fin (1 - exp (- 1))"
  using exp_minus_one_bounds by (intro fl_in_range) simp_all

lemma ln_half_bounds: "ln (1 / 2 :: real) \<le> - (1 / 2)" "- 1 \<le> ln (1 / 2 :: real)"
proof -
  show "ln (1 / 2 :: real) \<le> - (1 / 2)" using ln_le_minus_one [of "1 / 2 :: real"] by simp
  have "ln (1 / 2 :: real) = - ln 2" by (simp add: ln_div)
  then show "- 1 \<le> ln (1 / 2 :: real)" using ln_2_less_1 by simp
qed


section \<open>The branch of the schedule\<close>


lemma next_occurrence_Nil:
  "s_descendants st = [] \<Longrightarrow> next_occurrence u process st = background_event u process st"
  by (simp add: next_occurrence_def)

lemma next_occurrence_Cons:
  "s_descendants st = event # rest \<Longrightarrow>
     next_occurrence u process st =
       (if s_next_bg st < e_tnext event then background_event u process st
        else descendant_event u process event rest st)"
  by (simp add: next_occurrence_def)

lemma next_event_frame:
  "s_t (next_event u process Mmin Mmax beta st) = s_t (next_occurrence u process st)"
  "s_next_bg (next_event u process Mmin Mmax beta st) = s_next_bg (next_occurrence u process st)"
  "s_rng (next_event u process Mmin Mmax beta st) = s_rng (next_occurrence u process st) + 2"
  by (simp_all add: next_event_def Let_def)

lemma descendant_event_frame:
  "s_t (descendant_event u process event rest st) = e_tnext event"
  "s_next_bg (descendant_event u process event rest st) = s_next_bg st"
  "s_rng (descendant_event u process event rest st) = s_rng st + 1"
  by (simp_all add: descendant_event_def Let_def)

lemma background_event_frame:
  "s_t (background_event u process st) = s_next_bg st"
  "s_descendants (background_event u process st) = s_descendants st"
  "s_rng (background_event u process st) = s_rng st + 1"
  "s_next_bg (background_event u process st)
     = next_background_occurrence (u (s_rng st)) (s_next_bg st) process"
  by (simp_all add: background_event_def Let_def)



section \<open>The two loops and the entry point\<close>

lemma skip_loop_funpow:
  "n \<le> N_skip \<Longrightarrow>
     skip_loop u P Mmin Mmax beta N_skip n st
       = (N_skip, (next_event u P Mmin Mmax beta ^^ (unat N_skip - unat n)) st)"
proof (induction u P Mmin Mmax beta N_skip n st rule: skip_loop.induct)
  case (1 u P Mmin Mmax beta N_skip n st)
  show ?case
  proof (cases "n < N_skip")
    case True
    have le: "n + 1 \<le> N_skip" using True by (rule inc_le)
    have un: "unat (n + 1) = Suc (unat n)" using True by (rule unat_inc_less)
    have lt: "unat n < unat N_skip" using True by (simp add: word_less_nat_alt)
    have k: "unat N_skip - unat n = Suc (unat N_skip - unat (n + 1))" using un lt by simp
    show ?thesis
      by (subst skip_loop.simps) (simp add: True "1.IH" [OF True le] k funpow_swap1)
  next
    case False
    with "1.prems" have "n = N_skip" by simp
    then show ?thesis by (subst skip_loop.simps) simp
  qed
qed

lemma take_Suc_update:
  "i < length xs \<Longrightarrow> take (Suc i) (xs[i := v]) = take i xs @ [v]"
  by (simp add: take_Suc_conv_app_nth)

lemma map_upt_Suc_shift:
  "map g [0..<Suc k] = g 0 # map (\<lambda>j. g (Suc j)) [0..<k]"
  by (simp add: map_upt_Suc del: upt_Suc)

lemma fill_loop_closed:
  "n \<le> bound \<Longrightarrow> i + (unat bound - unat n) \<le> length Mi \<Longrightarrow> length ti = length Mi \<Longrightarrow>
     fill_loop u P Mmin Mmax beta bound n i st Mi ti =
       (bound, (next_event u P Mmin Mmax beta ^^ (unat bound - unat n)) st,
        take i Mi @ map (\<lambda>j. s_M ((next_event u P Mmin Mmax beta ^^ Suc j) st))
                      [0..<unat bound - unat n] @ drop (i + (unat bound - unat n)) Mi,
        take i ti @ map (\<lambda>j. s_t ((next_event u P Mmin Mmax beta ^^ Suc j) st))
                      [0..<unat bound - unat n] @ drop (i + (unat bound - unat n)) ti)"
proof (induction u P Mmin Mmax beta bound n i st Mi ti rule: fill_loop.induct)
  case (1 u P Mmin Mmax beta bound n i st Mi ti)
  let ?ne = "next_event u P Mmin Mmax beta"
  show ?case
  proof (cases "n < bound")
    case True
    have le: "n + 1 \<le> bound" using True by (rule inc_le)
    have un: "unat (n + 1) = Suc (unat n)" using True by (rule unat_inc_less)
    have lt: "unat n < unat bound" using True by (simp add: word_less_nat_alt)
    define k where "k = unat bound - unat (n + 1)"
    have k: "unat bound - unat n = Suc k" using un lt by (simp add: k_def)
    have i: "i < length Mi" "i < length ti" using "1.prems" k by simp_all
    have len: "i + 1 + k \<le> length (Mi[i := s_M (?ne st)])"
      "length (ti[i := s_t (?ne st)]) = length (Mi[i := s_M (?ne st)])"
      using "1.prems" k by simp_all
    note IH = "1.IH" [OF True refl le len [unfolded k_def]]
    show ?thesis
      apply (subst fill_loop.simps)
      apply (simp only: True if_True Let_def IH)
      apply (simp only: k_def [symmetric] k)
      using i
      apply (simp add: take_Suc_update map_upt_Suc_shift funpow_swap1 del: upt_Suc)
      done
  next
    case False
    with "1.prems" have "n = bound" by simp
    then show ?thesis by (subst fill_loop.simps) simp
  qed
qed

lemma fill_loop_skip:
  "\<not> n < bound \<Longrightarrow> fill_loop u P Mmin Mmax beta bound n i st Mi ti = (n, st, Mi, ti)"
  by (subst fill_loop.simps) simp


lemma unat_size:
  "length xs < 2 ^ 64 \<Longrightarrow> unat (of_nat (length xs) :: 64 word) = length xs"
  by (simp add: unat_of_nat)

lemma size_eq_iff:
  "length xs < 2 ^ 64 \<Longrightarrow> length ys < 2 ^ 64 \<Longrightarrow>
     (of_nat (length ys) :: 64 word) = of_nat (length xs) \<longleftrightarrow> length ys = length xs"
  by (metis unat_size)

lemma bound_no_wrap:
  fixes N N_skip :: "64 word"
  assumes "unat N + unat N_skip < 2 ^ 64"
  shows "N_skip \<le> N + N_skip" and "unat (N + N_skip) - unat N_skip = unat N"
proof -
  have "unat N + unat N_skip < 2 ^ LENGTH(64)" using assms by simp
  then have eq: "unat (N + N_skip) = unat N + unat N_skip" by (simp only: unat_add_lem)
  then show "N_skip \<le> N + N_skip" by (simp add: word_le_nat_alt)
  show "unat (N + N_skip) - unat N_skip = unat N" using eq by simp
qed

lemma mod_once:
  fixes a W :: nat
  assumes "W \<le> a" "a < W + W"
  shows "a mod W = a - W"
proof -
  have "a mod W = (a - W) mod W" using assms(1) by (rule le_mod_geq)
  moreover have "a - W < W" using assms by arith
  ultimately show ?thesis by simp
qed

lemma bound_wrap:
  fixes N N_skip :: "64 word"
  assumes "2 ^ 64 \<le> unat N + unat N_skip"
  shows "\<not> N_skip < N + N_skip"
proof -
  define W :: nat where "W = 2 ^ 64"
  have N: "unat N < W" "unat N_skip < W"
    using unsigned_less [of N] unsigned_less [of N_skip] by (simp_all add: W_def)
  have W: "W \<le> unat N + unat N_skip" using assms by (simp add: W_def)
  have "unat (N + N_skip) = (unat N + unat N_skip) mod W"
    by (simp add: unat_word_ariths W_def)
  also have "\<dots> = unat N + unat N_skip - W"
    using W N by (intro mod_once) simp_all
  finally have "unat (N + N_skip) \<le> unat N_skip" using N by arith
  then show ?thesis by (simp add: word_less_nat_alt)
qed


lemma event_state_funpow:
  "(next_event (U seed) (Process_M_t_init mu_0 (Fin 1) c beta Mr p Mmin Mmax offspring_fraction)
        Mmin Mmax beta ^^ j)
     ((next_event (U seed) (Process_M_t_init mu_0 (Fin 1) c beta Mr p Mmin Mmax offspring_fraction)
        Mmin Mmax beta ^^ k)
       (initial_state (U seed)
          (Process_M_t_init mu_0 (Fin 1) c beta Mr p Mmin Mmax offspring_fraction)))
   = event_state U mu_0 Mmin Mmax beta p c Mr offspring_fraction seed (j + k)"
  by (simp add: event_state_def Let_def funpow_add)

lemma event_state_Suc:
  "event_state U mu_0 Mmin Mmax beta p c Mr offspring_fraction seed (Suc k)
     = next_event (U seed) (Process_M_t_init mu_0 (Fin 1) c beta Mr p Mmin Mmax offspring_fraction)
         Mmin Mmax beta (event_state U mu_0 Mmin Mmax beta p c Mr offspring_fraction seed k)"
  by (simp add: event_state_def Let_def)

lemma ETAS_completes:
  assumes "passes_sanity Mmin Mmax p offspring_fraction"
    and "length ti = length Mi" "length Mi + unat N_skip < 2 ^ 64"
  shows "ETAS_generate_catalog_M_t U mu_0 Mmin Mmax beta p c Mr offspring_fraction N_skip seed Mi ti
    = (None,
       map (\<lambda>j. s_M (event_state U mu_0 Mmin Mmax beta p c Mr offspring_fraction seed
                       (Suc j + unat N_skip))) [0..<length Mi],
       map (\<lambda>j. s_t (event_state U mu_0 Mmin Mmax beta p c Mr offspring_fraction seed
                       (Suc j + unat N_skip))) [0..<length Mi])"
proof -
  let ?N = "of_nat (length Mi) :: 64 word"
  let ?P = "Process_M_t_init mu_0 (Fin 1) c beta Mr p Mmin Mmax offspring_fraction"
  have len: "length Mi < 2 ^ 64" using assms(3) by simp
  have N: "unat ?N = length Mi" using len by (rule unat_size)
  have nw: "unat ?N + unat N_skip < 2 ^ 64" using assms(3) N by simp
  note b = bound_no_wrap [OF nw]
  have skip: "skip_loop (U seed) ?P Mmin Mmax beta N_skip 0 (initial_state (U seed) ?P)
      = (N_skip, event_state U mu_0 Mmin Mmax beta p c Mr offspring_fraction seed (unat N_skip))"
    by (simp add: skip_loop_funpow event_state_def Let_def)
  have fill: "fill_loop (U seed) ?P Mmin Mmax beta (?N + N_skip) N_skip 0
        (event_state U mu_0 Mmin Mmax beta p c Mr offspring_fraction seed (unat N_skip)) Mi ti
      = (?N + N_skip,
         event_state U mu_0 Mmin Mmax beta p c Mr offspring_fraction seed (length Mi + unat N_skip),
         map (\<lambda>j. s_M (event_state U mu_0 Mmin Mmax beta p c Mr offspring_fraction seed
                       (Suc j + unat N_skip))) [0..<length Mi],
         map (\<lambda>j. s_t (event_state U mu_0 Mmin Mmax beta p c Mr offspring_fraction seed
                       (Suc j + unat N_skip))) [0..<length Mi])"
    using assms(2)
    by (subst fill_loop_closed [OF b(1)])
       (simp_all add: b(2) N event_state_def [where k = "unat N_skip"] Let_def event_state_funpow
          event_state_Suc [symmetric])
  show ?thesis
    using assms(1,2)
    by (simp add: ETAS_generate_catalog_M_t_def passes_sanity_def Let_def skip fill)
qed

lemma ETAS_wraps:
  assumes "passes_sanity Mmin Mmax p offspring_fraction"
    and "length ti = length Mi" "length Mi < 2 ^ 64" "2 ^ 64 \<le> length Mi + unat N_skip"
  shows "ETAS_generate_catalog_M_t U mu_0 Mmin Mmax beta p c Mr offspring_fraction N_skip seed Mi ti
    = (None, Mi, ti)"
proof -
  let ?N = "of_nat (length Mi) :: 64 word"
  let ?P = "Process_M_t_init mu_0 (Fin 1) c beta Mr p Mmin Mmax offspring_fraction"
  have N: "unat ?N = length Mi" using assms(3) by (rule unat_size)
  have w: "\<not> N_skip < ?N + N_skip" using assms(4) N by (intro bound_wrap) simp
  have skip: "skip_loop (U seed) ?P Mmin Mmax beta N_skip 0 (initial_state (U seed) ?P)
      = (N_skip, event_state U mu_0 Mmin Mmax beta p c Mr offspring_fraction seed (unat N_skip))"
    by (simp add: skip_loop_funpow event_state_def Let_def)
  show ?thesis
    using assms(1,2)
    by (simp add: ETAS_generate_catalog_M_t_def passes_sanity_def Let_def skip fill_loop_skip [OF w])
qed

lemma ETAS_throws:
  "Mmin \<ge> Mmax \<Longrightarrow>
     ETAS_generate_catalog_M_t U mu_0 Mmin Mmax beta p c Mr offspring_fraction N_skip seed Mi ti
       = (Some (runtime_error ''Mmin >= Mmax''), Mi, ti)"
  "p \<le> Fin 1 \<Longrightarrow> \<not> Mmin \<ge> Mmax \<Longrightarrow>
     ETAS_generate_catalog_M_t U mu_0 Mmin Mmax beta p c Mr offspring_fraction N_skip seed Mi ti
       = (Some (runtime_error ''p <= 1''), Mi, ti)"
  "offspring_fraction \<ge> Fin 1 \<Longrightarrow> \<not> Mmin \<ge> Mmax \<Longrightarrow> \<not> p \<le> Fin 1 \<Longrightarrow>
     ETAS_generate_catalog_M_t U mu_0 Mmin Mmax beta p c Mr offspring_fraction N_skip seed Mi ti
       = (Some (runtime_error ''Instable process (offspring ratio > 1)''), Mi, ti)"
  "offspring_fraction < Fin 0 \<Longrightarrow> \<not> Mmin \<ge> Mmax \<Longrightarrow> \<not> p \<le> Fin 1 \<Longrightarrow>
     \<not> offspring_fraction \<ge> Fin 1 \<Longrightarrow>
     ETAS_generate_catalog_M_t U mu_0 Mmin Mmax beta p c Mr offspring_fraction N_skip seed Mi ti
       = (Some (runtime_error ''Offspring ratio needs to be non-negative.''), Mi, ti)"
  "length Mi < 2 ^ 64 \<Longrightarrow> length ti < 2 ^ 64 \<Longrightarrow> length ti \<noteq> length Mi \<Longrightarrow>
     passes_sanity Mmin Mmax p offspring_fraction \<Longrightarrow>
     ETAS_generate_catalog_M_t U mu_0 Mmin Mmax beta p c Mr offspring_fraction N_skip seed Mi ti
       = (Some (runtime_error ''Size of M and t not compatible''), Mi, ti)"
  by (simp_all add: ETAS_generate_catalog_M_t_def passes_sanity_def Let_def size_eq_iff)


text \<open>The five errors of the entry point carry five different messages.\<close>

lemma error_messages_distinct:
  "distinct [runtime_error ''Mmin >= Mmax'', runtime_error ''p <= 1'',
     runtime_error ''Instable process (offspring ratio > 1)'',
     runtime_error ''Offspring ratio needs to be non-negative.'',
     runtime_error ''Size of M and t not compatible'']"
  by simp

lemma passes_sanity_cases:
  "passes_sanity Mmin Mmax p offspring_fraction \<or> Mmin \<ge> Mmax
   \<or> (\<not> Mmin \<ge> Mmax \<and> p \<le> Fin 1)
   \<or> (\<not> Mmin \<ge> Mmax \<and> \<not> p \<le> Fin 1 \<and> offspring_fraction \<ge> Fin 1)
   \<or> (\<not> Mmin \<ge> Mmax \<and> \<not> p \<le> Fin 1 \<and> \<not> offspring_fraction \<ge> Fin 1
        \<and> offspring_fraction < Fin 0)"
  by (auto simp: passes_sanity_def)

text \<open>
  The entry point is all-or-nothing as long as \<open>N + N_skip\<close> does not wrap around: a failed
  check throws and leaves the buffers as they were; otherwise the call fills both buffers with
  the events \<open>N_skip + 1, \<dots>, N_skip + N\<close>.
\<close>

lemma catalog_all_or_nothing:
  assumes "length Mi < 2 ^ 64" "length ti < 2 ^ 64"
  shows "(Mmin \<ge> Mmax \<or> p \<le> Fin 1 \<or> offspring_fraction \<ge> Fin 1 \<or> offspring_fraction < Fin 0
            \<or> length ti \<noteq> length Mi
          \<longrightarrow> (\<exists>msg. ETAS_generate_catalog_M_t U mu_0 Mmin Mmax beta p c Mr offspring_fraction
                        N_skip seed Mi ti = (Some (runtime_error msg), Mi, ti)))
       \<and> (\<not> (Mmin \<ge> Mmax \<or> p \<le> Fin 1 \<or> offspring_fraction \<ge> Fin 1
               \<or> offspring_fraction < Fin 0 \<or> length ti \<noteq> length Mi)
            \<and> length Mi + unat N_skip < 2 ^ 64
          \<longrightarrow> ETAS_generate_catalog_M_t U mu_0 Mmin Mmax beta p c Mr offspring_fraction
                 N_skip seed Mi ti
               = (None,
                  map (\<lambda>j. s_M (event_state U mu_0 Mmin Mmax beta p c Mr offspring_fraction seed
                                  (Suc j + unat N_skip))) [0..<length Mi],
                  map (\<lambda>j. s_t (event_state U mu_0 Mmin Mmax beta p c Mr offspring_fraction seed
                                  (Suc j + unat N_skip))) [0..<length Mi]))"
proof (intro conjI impI)
  assume bad: "Mmin \<ge> Mmax \<or> p \<le> Fin 1 \<or> offspring_fraction \<ge> Fin 1
      \<or> offspring_fraction < Fin 0 \<or> length ti \<noteq> length Mi"
  from passes_sanity_cases [of Mmin Mmax p offspring_fraction]
  show "\<exists>msg. ETAS_generate_catalog_M_t U mu_0 Mmin Mmax beta p c Mr offspring_fraction
                        N_skip seed Mi ti = (Some (runtime_error msg), Mi, ti)"
  proof (elim disjE conjE)
    assume ok: "passes_sanity Mmin Mmax p offspring_fraction"
    with bad have "length ti \<noteq> length Mi" by (auto simp: passes_sanity_def)
    with ok assms show ?thesis by (simp add: ETAS_throws(5))
  qed (simp_all add: ETAS_throws)
next
  assume "\<not> (Mmin \<ge> Mmax \<or> p \<le> Fin 1 \<or> offspring_fraction \<ge> Fin 1
               \<or> offspring_fraction < Fin 0 \<or> length ti \<noteq> length Mi)
            \<and> length Mi + unat N_skip < 2 ^ 64"
  then show "ETAS_generate_catalog_M_t U mu_0 Mmin Mmax beta p c Mr offspring_fraction
                 N_skip seed Mi ti
               = (None,
                  map (\<lambda>j. s_M (event_state U mu_0 Mmin Mmax beta p c Mr offspring_fraction seed
                                  (Suc j + unat N_skip))) [0..<length Mi],
                  map (\<lambda>j. s_t (event_state U mu_0 Mmin Mmax beta p c Mr offspring_fraction seed
                                  (Suc j + unat N_skip))) [0..<length Mi])"
    by (intro ETAS_completes) (simp_all add: passes_sanity_def)
qed

text \<open>
  Claim C1 at the input where the code misses it. The bound of the second loop is the
  \<open>size_t\<close> sum \<open>N + N_skip\<close>. With \<open>N_skip = 2^64 - 1\<close> and buffers of one slot it wraps to
  \<open>0\<close>: after the warm-up \<open>n = N_skip\<close> is not below it, the loop body never runs, and the
  call returns without an error and without having written the one pair it owes.
\<close>

theorem warm_up_overflow_writes_nothing:
  "passes_sanity (Fin 0) (Fin 1) (Fin 2) (Fin (1 / 2))
   \<and> ETAS_generate_catalog_M_t half_generator (Fin 1) (Fin 0) (Fin 1) (Fin 1) (Fin 2)
        (Fin 1) (Fin 0) (Fin (1 / 2)) 18446744073709551615 0 [Fin 0] [Fin 0]
      = (None, [Fin 0], [Fin 0])"
proof -
  have ok: "passes_sanity (Fin 0) (Fin 1) (Fin 2) (Fin (1 / 2))"
    by (simp add: passes_sanity_def)
  have "ETAS_generate_catalog_M_t half_generator (Fin 1) (Fin 0) (Fin 1) (Fin 1) (Fin 2)
        (Fin 1) (Fin 0) (Fin (1 / 2)) 18446744073709551615 0 [Fin 0] [Fin 0]
      = (None, [Fin 0], [Fin 0])"
    using ok by (rule ETAS_wraps) simp_all
  with ok show ?thesis by simp
qed



section \<open>Determinism\<close>

lemma s_rng_next_occurrence: "s_rng (next_occurrence u process st) = s_rng st + 1"
  by (cases "s_descendants st")
     (simp_all add: next_occurrence_def background_event_frame descendant_event_frame)

lemma s_rng_next_event: "s_rng (next_event u process Mmin Mmax beta st) = s_rng st + 3"
  by (simp add: next_event_frame s_rng_next_occurrence)

lemma next_occurrence_cong:
  "u' (s_rng st) = u (s_rng st) \<Longrightarrow> next_occurrence u' process st = next_occurrence u process st"
  by (cases "s_descendants st")
     (simp_all add: next_occurrence_def background_event_def descendant_event_def)

lemma next_event_cong:
  assumes "\<forall>j < s_rng st + 3. u' j = u j"
  shows "next_event u' process Mmin Mmax beta st = next_event u process Mmin Mmax beta st"
proof -
  have 0: "u' (s_rng st) = u (s_rng st)" using assms by simp
  have 1: "u' (Suc (s_rng st)) = u (Suc (s_rng st))" using assms by simp
  have 2: "u' (Suc (Suc (s_rng st))) = u (Suc (Suc (s_rng st)))" using assms by simp
  show ?thesis
    by (simp add: next_event_def next_occurrence_cong [of u' st u, OF 0] s_rng_next_occurrence 1 2)
qed

lemma funpow_next_event_cong:
  assumes "\<forall>j < s_rng st + 3 * k. u' j = u j"
  shows "(next_event u' process Mmin Mmax beta ^^ k) st
           = (next_event u process Mmin Mmax beta ^^ k) st
       \<and> s_rng ((next_event u process Mmin Mmax beta ^^ k) st) = s_rng st + 3 * k"
  using assms
proof (induction k)
  case 0
  then show ?case by simp
next
  case (Suc k)
  then have IH: "(next_event u' process Mmin Mmax beta ^^ k) st
           = (next_event u process Mmin Mmax beta ^^ k) st"
    "s_rng ((next_event u process Mmin Mmax beta ^^ k) st) = s_rng st + 3 * k"
    by simp_all
  have "\<forall>j < s_rng ((next_event u process Mmin Mmax beta ^^ k) st) + 3. u' j = u j"
    using Suc.prems IH(2) by simp
  then show ?case
    using IH by (simp add: next_event_cong s_rng_next_event)
qed

lemma event_state_cong:
  assumes "\<forall>j < 1 + 3 * k. U' seed' j = U seed j"
  shows "event_state U' mu_0 Mmin Mmax beta p c Mr offspring_fraction seed' k
       = event_state U mu_0 Mmin Mmax beta p c Mr offspring_fraction seed k"
proof -
  let ?P = "Process_M_t_init mu_0 (Fin 1) c beta Mr p Mmin Mmax offspring_fraction"
  have 0: "U' seed' 0 = U seed 0" using assms by simp
  then have init: "initial_state (U' seed') ?P = initial_state (U seed) ?P"
    by (simp add: initial_state_def)
  have "s_rng (initial_state (U seed) ?P) = 1" by (simp add: initial_state_def Let_def)
  then have "\<forall>j < s_rng (initial_state (U seed) ?P) + 3 * k. U' seed' j = U seed j"
    using assms by simp
  from funpow_next_event_cong [OF this] show ?thesis
    by (simp add: event_state_def Let_def init)
qed

lemma ETAS_buffer_independent:
  assumes "length Mi < 2 ^ 64" "length ti < 2 ^ 64" "length Mi' = length Mi" "length ti' = length ti"
  shows "\<exists>e Ms ts.
           ETAS_generate_catalog_M_t U mu_0 Mmin Mmax beta p c Mr offspring_fraction N_skip seed Mi ti
             = (e, Ms @ drop (length Ms) Mi, ts @ drop (length ts) ti)
         \<and> ETAS_generate_catalog_M_t U mu_0 Mmin Mmax beta p c Mr offspring_fraction N_skip seed
               Mi' ti'
             = (e, Ms @ drop (length Ms) Mi', ts @ drop (length ts) ti')"
proof -
  let ?run = "ETAS_generate_catalog_M_t U mu_0 Mmin Mmax beta p c Mr offspring_fraction N_skip seed"
  have thrown: "\<exists>e Ms ts. ?run Mi ti = (e, Ms @ drop (length Ms) Mi, ts @ drop (length ts) ti)
         \<and> ?run Mi' ti' = (e, Ms @ drop (length Ms) Mi', ts @ drop (length ts) ti')"
    if "?run Mi ti = (e, Mi, ti)" "?run Mi' ti' = (e, Mi', ti')" for e
    using that by (intro exI [of _ e] exI [of _ "[]"]) simp
  from passes_sanity_cases [of Mmin Mmax p offspring_fraction] show ?thesis
  proof (elim disjE conjE)
    assume ok: "passes_sanity Mmin Mmax p offspring_fraction"
    show ?thesis
    proof (cases "length ti = length Mi")
      case False
      then have "length ti' \<noteq> length Mi'" using assms by simp
      with ok False assms show ?thesis
        by (intro thrown) (simp_all add: ETAS_throws(5))
    next
      case True
      then have True': "length ti' = length Mi'" using assms by simp
      show ?thesis
      proof (cases "length Mi + unat N_skip < 2 ^ 64")
        case False
        then have "2 ^ 64 \<le> length Mi + unat N_skip" by simp
        with ok True True' assms show ?thesis
          by (intro thrown) (simp_all add: ETAS_wraps)
      next
        case nowrap: True
        let ?Ms = "map (\<lambda>j. s_M (event_state U mu_0 Mmin Mmax beta p c Mr offspring_fraction seed
                       (Suc j + unat N_skip))) [0..<length Mi]"
        let ?ts = "map (\<lambda>j. s_t (event_state U mu_0 Mmin Mmax beta p c Mr offspring_fraction seed
                       (Suc j + unat N_skip))) [0..<length Mi]"
        have "?run Mi ti = (None, ?Ms, ?ts)"
          using ok True nowrap by (rule ETAS_completes)
        moreover have "?run Mi' ti' = (None, ?Ms, ?ts)"
          using ETAS_completes [OF ok True', of N_skip U mu_0 beta c Mr seed] nowrap assms(3)
          by simp
        ultimately show ?thesis
          using True assms(3,4)
          by (intro exI [of _ None] exI [of _ ?Ms] exI [of _ ?ts]) simp
      qed
    qed
  qed (intro thrown; simp add: ETAS_throws)+
qed

lemma ETAS_generator_prefix:
  assumes "length Mi < 2 ^ 64" "length ti < 2 ^ 64"
    and agree: "\<forall>k < 1 + 3 * (unat N_skip + length Mi). U' seed' k = U seed k"
  shows "ETAS_generate_catalog_M_t U' mu_0 Mmin Mmax beta p c Mr offspring_fraction N_skip seed' Mi ti
       = ETAS_generate_catalog_M_t U mu_0 Mmin Mmax beta p c Mr offspring_fraction N_skip seed Mi ti"
proof -
  from passes_sanity_cases [of Mmin Mmax p offspring_fraction] show ?thesis
  proof (elim disjE conjE)
    assume ok: "passes_sanity Mmin Mmax p offspring_fraction"
    show ?thesis
    proof (cases "length ti = length Mi")
      case False
      with ok assms show ?thesis by (simp add: ETAS_throws(5))
    next
      case True
      show ?thesis
      proof (cases "length Mi + unat N_skip < 2 ^ 64")
        case False
        then have "2 ^ 64 \<le> length Mi + unat N_skip" by simp
        with ok True assms show ?thesis by (simp add: ETAS_wraps)
      next
        case nowrap: True
        have "event_state U' mu_0 Mmin Mmax beta p c Mr offspring_fraction seed'
                 (Suc j + unat N_skip)
            = event_state U mu_0 Mmin Mmax beta p c Mr offspring_fraction seed
                 (Suc j + unat N_skip)" if "j < length Mi" for j
          using agree that by (intro event_state_cong) simp
        then show ?thesis
          by (simp add: ETAS_completes [OF ok True nowrap])
      qed
    qed
  qed (simp_all add: ETAS_throws)
qed

text \<open>
  Claim C7. The call is a function of its parameters, of the sizes of the two buffers and of the
  variates the seeded generator yields: two calls with the same parameters, seed and buffer
  sizes end the same way (the same error or none) and write the same magnitudes and times,
  whatever the buffers held before; and the result depends on the generator only through its
  first \<open>1 + 3 * (N_skip + N)\<close> variates, one for the first background candidate and three for
  every event.
\<close>

theorem catalog_deterministic:
  assumes "length Mi < 2 ^ 64" "length ti < 2 ^ 64" "length Mi' = length Mi" "length ti' = length ti"
  shows "(\<exists>e Ms ts.
           ETAS_generate_catalog_M_t U mu_0 Mmin Mmax beta p c Mr offspring_fraction N_skip seed Mi ti
             = (e, Ms @ drop (length Ms) Mi, ts @ drop (length ts) ti)
         \<and> ETAS_generate_catalog_M_t U mu_0 Mmin Mmax beta p c Mr offspring_fraction N_skip seed
               Mi' ti'
             = (e, Ms @ drop (length Ms) Mi', ts @ drop (length ts) ti'))
       \<and> ((\<forall>k < 1 + 3 * (unat N_skip + length Mi). U' seed' k = U seed k) \<longrightarrow>
           ETAS_generate_catalog_M_t U' mu_0 Mmin Mmax beta p c Mr offspring_fraction N_skip seed'
               Mi ti
             = ETAS_generate_catalog_M_t U mu_0 Mmin Mmax beta p c Mr offspring_fraction N_skip seed
               Mi ti)"
proof (intro conjI impI)
  show "\<exists>e Ms ts.
           ETAS_generate_catalog_M_t U mu_0 Mmin Mmax beta p c Mr offspring_fraction N_skip seed Mi ti
             = (e, Ms @ drop (length Ms) Mi, ts @ drop (length ts) ti)
         \<and> ETAS_generate_catalog_M_t U mu_0 Mmin Mmax beta p c Mr offspring_fraction N_skip seed
               Mi' ti'
             = (e, Ms @ drop (length Ms) Mi', ts @ drop (length ts) ti')"
    using assms by (rule ETAS_buffer_independent)
next
  assume "\<forall>k < 1 + 3 * (unat N_skip + length Mi). U' seed' k = U seed k"
  with assms(1,2) show "ETAS_generate_catalog_M_t U' mu_0 Mmin Mmax beta p c Mr offspring_fraction
               N_skip seed' Mi ti
             = ETAS_generate_catalog_M_t U mu_0 Mmin Mmax beta p c Mr offspring_fraction N_skip seed
               Mi ti"
    by (rule ETAS_generator_prefix)
qed


theorem catalog_deterministic_witness:
  "length [NaN] < (2::nat) ^ 64 \<and> length [Fin 0] = length [NaN]
   \<and> (\<exists>e Ms ts.
         ETAS_generate_catalog_M_t half_generator (Fin 1) (Fin 0) (Fin 1) (Fin 1) (Fin 2) (Fin 1)
             (Fin 0) (Fin (1 / 2)) 1 0 [NaN] [NaN]
           = (e, Ms @ drop (length Ms) [NaN], ts @ drop (length ts) [NaN])
       \<and> ETAS_generate_catalog_M_t half_generator (Fin 1) (Fin 0) (Fin 1) (Fin 1) (Fin 2) (Fin 1)
             (Fin 0) (Fin (1 / 2)) 1 0 [Fin 0] [Fin 0]
           = (e, Ms @ drop (length Ms) [Fin 0], ts @ drop (length ts) [Fin 0]))
   \<and> ETAS_generate_catalog_M_t half_prefix_generator (Fin 1) (Fin 0) (Fin 1) (Fin 1) (Fin 2) (Fin 1)
             (Fin 0) (Fin (1 / 2)) 1 0 [NaN] [NaN]
       = ETAS_generate_catalog_M_t half_generator (Fin 1) (Fin 0) (Fin 1) (Fin 1) (Fin 2) (Fin 1)
             (Fin 0) (Fin (1 / 2)) 1 0 [NaN] [NaN]"
proof -
  have h: "length [NaN] < (2::nat) ^ 64" "length [Fin 0] = length [NaN]"
    "\<forall>k < 1 + 3 * (unat (1 :: 64 word) + length [NaN]).
        half_prefix_generator 0 k = half_generator 0 k"
    by (simp_all add: half_prefix_generator_def half_generator_def)
  note inst = catalog_deterministic [where U = half_generator and U' = half_prefix_generator
      and seed = 0 and seed' = 0 and N_skip = 1 and Mi = "[NaN]" and ti = "[NaN]"
      and Mi' = "[Fin 0]" and ti' = "[Fin 0]", OF h(1) h(1) h(2) h(2)]
  from inst h show ?thesis by blast
qed


section \<open>Overflow in the critical rate\<close>

text \<open>
  \<open>critical_FK\<close> computes the power \<open>(c / Tref)^p\<close> as \<open>exp(p * log(c / Tref))\<close> and divides it
  by \<open>c\<close> afterwards, where the formula in its comment has \<open>c^(p-1)\<close>. At \<open>p = 52\<close> and
  \<open>c = 10^6\<close> seconds (\<open>Tref\<close> is one second) the power is \<open>10^312\<close> and overflows, while
  \<open>c^(p-1) = 10^306\<close> is in the range of a double. The other parameters are \<open>Mmin = 0\<close>,
  \<open>Mmax = 1\<close>, \<open>beta = 1\<close> and \<open>Mr = Mmin\<close>.
\<close>

lemma ln_million_bounds: "1 \<le> ln (1000000::real)" "ln (1000000::real) \<le> 1000000"
proof -
  have "exp 1 \<le> (1000000::real)" using exp_one_bounds by simp
  then show "1 \<le> ln (1000000::real)" by (simp add: ln_ge_iff)
  show "ln (1000000::real) \<le> 1000000" using ln_le_minus_one [of "1000000::real"] by simp
qed

lemma fl_ln_million: "fl (ln 1000000) = Fin (ln 1000000)"
  using ln_million_bounds by (intro fl_in_range) simp_all

lemma fl_52_ln_million: "fl (52 * ln 1000000) = Fin (52 * ln 1000000)"
  using ln_million_bounds by (intro fl_in_range) simp_all

lemma exp_52_ln_million: "exp (52 * ln (1000000::real)) = 1000000 ^ 52"
proof -
  have "exp (52 * ln (1000000::real)) = exp (ln 1000000) ^ 52"
    using exp_of_nat_mult [of 52 "ln (1000000::real)"] by simp
  then show ?thesis by simp
qed

lemma fl_exp_52: "fl (exp (52 * ln 1000000)) = PInf"
  by (simp only: exp_52_ln_million) (simp add: fl_overflow)

lemma critical_FK_at_p52:
  "critical_FK (Fin 0) (Fin 1) (Fin 52) (Fin 1000000) (Fin 1) (Fin 1) (Fin 0) = PInf"
proof -
  have a: "Fin 52 - Fin 1 = Fin 51" by (simp add: minus_Fin)
  have b: "std_exp (Fin 52 * std_log (Fin 1000000 / Fin 1)) = PInf"
    by (simp add: fl_ln_million fl_52_ln_million fl_exp_52)
  have c: "Fin 1 - std_exp (- Fin 1 * (Fin 1 - Fin 0)) = Fin (1 - exp (- 1))"
    by (simp add: minus_Fin fl_exp_minus_one fl_one_minus_exp)
  have d: "Fin 1 * std_exp (Fin 1 * (Fin 0 - Fin 0)) * (Fin 1 - Fin 0) = Fin 1"
    by (simp add: minus_Fin)
  have pos: "0 < 1 - exp (- 1 :: real)" using exp_minus_one_bounds by simp
  show ?thesis
    unfolding critical_FK_def a b c d using pos by (simp add: signed_inf_def)
qed

lemma K_star_at_p52:
  "1 < K_star 0 1 52 1000000 1 / 1 powr 52" "K_star 0 1 52 1000000 1 / 1 powr 52 < 2 ^ 1023"
  using exp_minus_one_bounds by (simp_all add: K_star_def)

text \<open>
  Claim C4 at an input where the code misses it. The parameters pass the checks of the entry
  point. The value the claim names, \<open>K* / Tref^p = 51 * 10^306 * (1 - e^(-1))\<close>, lies between
  \<open>1\<close> and \<open>2^1023\<close>, in the range of a double. The code returns \<open>+inf\<close> for \<open>critical_FK\<close>,
  and the constructor sets \<open>FK = +inf\<close> for the offspring fraction \<open>1/2\<close>.
\<close>

theorem critical_FK_overflows_below_K_star:
  "passes_sanity (Fin 0) (Fin 1) (Fin 52) (Fin (1 / 2))
   \<and> critical_FK (Fin 0) (Fin 1) (Fin 52) (Fin 1000000) (Fin 1) (Fin 1) (Fin 0) = PInf
   \<and> 1 < K_star 0 1 52 1000000 1 / 1 powr 52
   \<and> K_star 0 1 52 1000000 1 / 1 powr 52 < 2 ^ 1023
   \<and> P_FK (Process_M_t_init (Fin 1) (Fin 1) (Fin 1000000) (Fin 1) (Fin 0) (Fin 52) (Fin 0) (Fin 1)
        (Fin (1 / 2))) = PInf"
  using K_star_at_p52
  by (simp add: passes_sanity_def critical_FK_at_p52 Process_M_t_init_def signed_inf_def)

text \<open>
  Claim C5 at the same input. The parameters pass the checks of the entry point, the critical
  rate the code computes is not finite, and \<open>FK\<close>, the critical rate times the offspring
  fraction \<open>1/2\<close>, is not below it: both are \<open>+inf\<close>.
\<close>

theorem critical_FK_not_finite:
  "passes_sanity (Fin 0) (Fin 1) (Fin 52) (Fin (1 / 2))
   \<and> \<not> is_finite (critical_FK (Fin 0) (Fin 1) (Fin 52) (Fin 1000000) (Fin 1) (Fin 1) (Fin 0))
   \<and> \<not> P_FK (Process_M_t_init (Fin 1) (Fin 1) (Fin 1000000) (Fin 1) (Fin 0) (Fin 52) (Fin 0)
            (Fin 1) (Fin (1 / 2)))
        < critical_FK (Fin 0) (Fin 1) (Fin 52) (Fin 1000000) (Fin 1) (Fin 1) (Fin 0)"
  by (simp add: passes_sanity_def critical_FK_at_p52 Process_M_t_init_def signed_inf_def)

text \<open>
  The same power underflows for a short time lag: at \<open>p = 1024\<close> and \<open>c = 2^-10\<close> seconds it is
  \<open>2^-10240\<close>, and the critical rate the code computes is zero.
\<close>

lemma ln_kibi_bounds: "ln (1 / 1024 :: real) \<le> - 1" "- 1024 \<le> ln (1 / 1024 :: real)"
proof -
  have "exp 1 \<le> (1024::real)" using exp_one_bounds by simp
  then have "1 \<le> ln (1024::real)" by (simp add: ln_ge_iff)
  moreover have "ln (1024::real) \<le> 1024" using ln_le_minus_one [of "1024::real"] by simp
  moreover have "ln (1 / 1024 :: real) = - ln 1024" by (simp add: ln_div)
  ultimately show "ln (1 / 1024 :: real) \<le> - 1" "- 1024 \<le> ln (1 / 1024 :: real)" by simp_all
qed

lemma exp_1024_ln_kibi: "exp (1024 * ln (1 / 1024 :: real)) = (1 / 1024) ^ 1024"
proof -
  have "exp (1024 * ln (1 / 1024 :: real)) = exp (ln (1 / 1024)) ^ 1024"
    using exp_of_nat_mult [of 1024 "ln (1 / 1024 :: real)"] by simp
  then show ?thesis by simp
qed

lemma kibi_power_underflows: "(1 / 1024 :: real) ^ 1024 \<le> 1 / 2 ^ 1075"
proof -
  have "(1 / 1024 :: real) ^ 1024 = ((1 / 2) ^ 10) ^ 1024" by (simp add: power_divide)
  also have "\<dots> = (1 / 2) ^ 10240" by (simp only: power_mult [symmetric]) simp
  also have "\<dots> \<le> (1 / 2 :: real) ^ 1075" by (rule power_decreasing) simp_all
  also have "\<dots> = 1 / 2 ^ 1075" by (simp only: power_one_over)
  finally show ?thesis .
qed

lemma fl_kibi_power: "fl ((1 / 1024) ^ 1024) = Fin 0"
  using kibi_power_underflows by (intro fl_underflow) simp_all

lemma critical_FK_at_p1024:
  "critical_FK (Fin 0) (Fin 1) (Fin 1024) (Fin (1 / 1024)) (Fin 1) (Fin 1) (Fin 0) = Fin 0"
proof -
  have l: "fl (ln (1 / 1024)) = Fin (ln (1 / 1024))"
    using ln_kibi_bounds by (intro fl_in_range) simp_all
  have m: "fl (1024 * ln (1 / 1024)) = Fin (1024 * ln (1 / 1024))"
    using ln_kibi_bounds by (intro fl_in_range) simp_all
  have e: "fl (exp (1024 * ln (1 / 1024))) = Fin 0"
    by (simp only: exp_1024_ln_kibi fl_kibi_power)
  have a: "Fin 1024 - Fin 1 = Fin 1023" by (simp add: minus_Fin fl_def)
  have b: "std_exp (Fin 1024 * std_log (Fin (1 / 1024) / Fin 1)) = Fin 0"
    by (simp add: fl_def [of "1 / 1024"] l m e)
  have c: "Fin 1 - std_exp (- Fin 1 * (Fin 1 - Fin 0)) = Fin (1 - exp (- 1))"
    by (simp add: minus_Fin fl_exp_minus_one fl_one_minus_exp)
  have d: "Fin 1 * std_exp (Fin 1 * (Fin 0 - Fin 0)) * (Fin 1 - Fin 0) = Fin 1"
    by (simp add: minus_Fin)
  show ?thesis
    unfolding critical_FK_def a b c d by simp
qed


section \<open>A rate constant that is not a number\<close>

text \<open>
  With a NaN in \<open>FK\<close> the exhaustion test \<open>q <= exp(-Lambda_i_oo)\<close> of
  \<open>next_single_occurrence\<close> compares with NaN and is false: the function returns a time for
  every \<open>q\<close>, and the time is NaN. The first event of a simulation then queues a stream with
  the candidate NaN, and the second event, for which \<open>next_bg < NaN\<close> is false, is taken from
  the queue.
\<close>

lemma child_of_NaN_rate:
  "P_FK P = NaN \<Longrightarrow> next_single_occurrence q ti Mi t_l P = Some NaN"
  by (simp add: next_single_occurrence_def Lambda_i_oo_def Let_def)

lemma first_event_queues_NaN:
  assumes "P_FK P = NaN" "s_descendants st = []"
  shows "map e_tnext (s_descendants (next_event u P Mmin Mmax beta st)) = [NaN]"
  using assms(2)
  by (simp add: next_event_def Let_def next_occurrence_Nil background_event_frame
        child_of_NaN_rate [OF assms(1)])

lemma event_after_NaN_candidate:
  assumes "map e_tnext (s_descendants st) = [NaN]"
  shows "s_t (next_event u P Mmin Mmax beta st) = NaN"
proof -
  from assms obtain event where q: "s_descendants st = [event]" and n: "e_tnext event = NaN"
    by (cases "s_descendants st") auto
  show ?thesis
    by (simp add: next_event_frame next_occurrence_Cons [OF q] n descendant_event_frame)
qed

text \<open>
  The overflow of the last section, with the offspring fraction \<open>0\<close>: \<open>FK\<close> is
  \<open>inf * 0\<close>.
\<close>

lemma FK_zero_offspring_at_p52:
  "P_FK (Process_M_t_init mu_0 (Fin 1) (Fin 1000000) (Fin 1) (Fin 0) (Fin 52) (Fin 0) (Fin 1) (Fin 0))
     = NaN"
  by (simp add: Process_M_t_init_def critical_FK_at_p52 signed_inf_def)

lemma event_states_at_p52:
  "map e_tnext (s_descendants
      (event_state U mu_0 (Fin 0) (Fin 1) (Fin 1) (Fin 52) (Fin 1000000) (Fin 0) (Fin 0) seed 1))
     = [NaN]"
  "s_t (event_state U mu_0 (Fin 0) (Fin 1) (Fin 1) (Fin 52) (Fin 1000000) (Fin 0) (Fin 0) seed 2)
     = NaN"
proof -
  let ?P = "Process_M_t_init mu_0 (Fin 1) (Fin 1000000) (Fin 1) (Fin 0) (Fin 52) (Fin 0) (Fin 1)
      (Fin 0)"
  have e: "s_descendants (initial_state (U seed) ?P) = []"
    by (simp add: initial_state_def Let_def)
  have 1: "event_state U mu_0 (Fin 0) (Fin 1) (Fin 1) (Fin 52) (Fin 1000000) (Fin 0) (Fin 0) seed 1
      = next_event (U seed) ?P (Fin 0) (Fin 1) (Fin 1) (initial_state (U seed) ?P)"
    by (simp add: event_state_def Let_def)
  show q: "map e_tnext (s_descendants
      (event_state U mu_0 (Fin 0) (Fin 1) (Fin 1) (Fin 52) (Fin 1000000) (Fin 0) (Fin 0) seed 1))
     = [NaN]"
    unfolding 1 using FK_zero_offspring_at_p52 e by (rule first_event_queues_NaN)
  have 2: "event_state U mu_0 (Fin 0) (Fin 1) (Fin 1) (Fin 52) (Fin 1000000) (Fin 0) (Fin 0) seed 2
      = next_event (U seed) ?P (Fin 0) (Fin 1) (Fin 1)
          (event_state U mu_0 (Fin 0) (Fin 1) (Fin 1) (Fin 52) (Fin 1000000) (Fin 0) (Fin 0) seed 1)"
    using event_state_Suc [of U mu_0 "Fin 0" "Fin 1" "Fin 1" "Fin 52" "Fin 1000000" "Fin 0" "Fin 0"
        seed 1] by (simp add: numeral_2_eq_2)
  show "s_t (event_state U mu_0 (Fin 0) (Fin 1) (Fin 1) (Fin 52) (Fin 1000000) (Fin 0) (Fin 0) seed 2)
     = NaN"
    unfolding 2 using q by (rule event_after_NaN_candidate)
qed

text \<open>
  Claim C9 at an input where the code misses it: offspring fraction \<open>0\<close>, \<open>p = 52\<close>,
  \<open>c = 10^6\<close> seconds, \<open>Mmin = 0\<close>, \<open>Mmax = 1\<close>, \<open>beta = 1\<close>, \<open>Mr = Mmin\<close>, with any
  background rate, generator and seed. The parameters pass the checks of the entry point, but
  \<open>FK\<close> is NaN and not \<open>0\<close>; every call of \<open>next_single_occurrence\<close> returns a time, which is
  NaN; after the first event the queue holds a descendant stream; and the second event is a
  descendant event, with time NaN.
\<close>

theorem zero_offspring_queues_descendant:
  "passes_sanity (Fin 0) (Fin 1) (Fin 52) (Fin 0)
   \<and> P_FK (Process_M_t_init mu_0 (Fin 1) (Fin 1000000) (Fin 1) (Fin 0) (Fin 52) (Fin 0) (Fin 1)
        (Fin 0)) = NaN
   \<and> next_single_occurrence q ti Mi t_l
        (Process_M_t_init mu_0 (Fin 1) (Fin 1000000) (Fin 1) (Fin 0) (Fin 52) (Fin 0) (Fin 1) (Fin 0))
      = Some NaN
   \<and> map e_tnext (s_descendants
        (event_state U mu_0 (Fin 0) (Fin 1) (Fin 1) (Fin 52) (Fin 1000000) (Fin 0) (Fin 0) seed 1))
      = [NaN]
   \<and> s_t (event_state U mu_0 (Fin 0) (Fin 1) (Fin 1) (Fin 52) (Fin 1000000) (Fin 0) (Fin 0) seed 2)
      = NaN"
  using event_states_at_p52 [of U mu_0 seed]
  by (simp add: passes_sanity_def FK_zero_offspring_at_p52 child_of_NaN_rate)

text \<open>
  Claim C2 at the same input. A call for two events, without warm-up, returns without an error;
  the time it writes at index \<open>1\<close> is NaN, and \<open>times[0] <= times[1]\<close> is false.
\<close>

theorem overflowing_rate_breaks_time_order:
  "passes_sanity (Fin 0) (Fin 1) (Fin 52) (Fin 0)
   \<and> ETAS_generate_catalog_M_t U mu_0 (Fin 0) (Fin 1) (Fin 1) (Fin 52) (Fin 1000000) (Fin 0) (Fin 0)
        0 seed [Fin 0, Fin 0] [Fin 0, Fin 0]
      = (None,
         [s_M (event_state U mu_0 (Fin 0) (Fin 1) (Fin 1) (Fin 52) (Fin 1000000) (Fin 0) (Fin 0)
                 seed 1),
          s_M (event_state U mu_0 (Fin 0) (Fin 1) (Fin 1) (Fin 52) (Fin 1000000) (Fin 0) (Fin 0)
                 seed 2)],
         [s_t (event_state U mu_0 (Fin 0) (Fin 1) (Fin 1) (Fin 52) (Fin 1000000) (Fin 0) (Fin 0)
                 seed 1),
          NaN])
   \<and> \<not> s_t (event_state U mu_0 (Fin 0) (Fin 1) (Fin 1) (Fin 52) (Fin 1000000) (Fin 0) (Fin 0)
              seed 1) \<le> NaN"
proof -
  have ok: "passes_sanity (Fin 0) (Fin 1) (Fin 52) (Fin 0)"
    by (simp add: passes_sanity_def)
  have u: "[0..<length [Fin 0, Fin 0 :: double]] = [0, 1]"
    by (simp add: upt_rec)
  have "ETAS_generate_catalog_M_t U mu_0 (Fin 0) (Fin 1) (Fin 1) (Fin 52) (Fin 1000000) (Fin 0)
        (Fin 0) 0 seed [Fin 0, Fin 0] [Fin 0, Fin 0]
      = (None,
         map (\<lambda>j. s_M (event_state U mu_0 (Fin 0) (Fin 1) (Fin 1) (Fin 52) (Fin 1000000) (Fin 0)
                         (Fin 0) seed (Suc j + unat (0 :: 64 word))))
           [0..<length [Fin 0, Fin 0 :: double]],
         map (\<lambda>j. s_t (event_state U mu_0 (Fin 0) (Fin 1) (Fin 1) (Fin 52) (Fin 1000000) (Fin 0)
                         (Fin 0) seed (Suc j + unat (0 :: 64 word))))
           [0..<length [Fin 0, Fin 0 :: double]])"
    using ok by (rule ETAS_completes) simp_all
  then show ?thesis
    unfolding u using ok event_states_at_p52(2) [of U mu_0 seed]
    by (simp add: numeral_2_eq_2)
qed


section \<open>Overflow in the descendant sampler\<close>










section \<open>Underflow in the magnitude sampler\<close>

text \<open>
  Claim C6 at an input where the code misses it: \<open>Mmin = 0\<close>, \<open>Mmax = 2^-600\<close> and
  \<open>beta = 2^-600\<close>, so that \<open>Mmin < Mmax\<close> and \<open>beta > 0\<close>. The product
  \<open>beta * (Mmax - Mmin) = 2^-1200\<close> underflows to zero. Then \<open>exp\<close> of it is \<open>1\<close>, the factor
  \<open>1 - exp(\<dots>)\<close> is \<open>0\<close>, the argument of the logarithm is \<open>1\<close>, and \<open>draw_magnitude\<close> returns
  \<open>Mmin\<close> for every \<open>q\<close>: it is constant in \<open>q\<close> where the claim has it strictly increasing, and
  it stays at \<open>Mmin\<close> where the claim has it tend to \<open>Mmax\<close>.
\<close>

theorem tiny_range_draws_Mmin:
  "Fin 0 < Fin (1 / 2 ^ 600)
   \<and> draw_magnitude (Fin q) (Fin 0) (Fin (1 / 2 ^ 600)) (Fin (1 / 2 ^ 600)) = Fin 0"
proof -
  have "\<bar>- (1 / 2 ^ 600) * (1 / 2 ^ 600) :: real\<bar> = 1 / 2 ^ 1200"
    by (simp add: power_add [symmetric] abs_mult)
  also have "\<dots> = (1 / 2 :: real) ^ 1200" by (simp only: power_one_over)
  also have "\<dots> \<le> (1 / 2 :: real) ^ 1075" by (rule power_decreasing) simp_all
  also have "\<dots> = 1 / 2 ^ 1075" by (simp only: power_one_over)
  finally have u: "fl (- (1 / 2 ^ 600) * (1 / 2 ^ 600)) = Fin 0"
    by (simp add: fl_def)
  have r: "Fin (1 / 2 ^ 600) - Fin 0 = Fin (1 / 2 ^ 600)"
    by (simp add: minus_Fin fl_def)
  have a: "- Fin (1 / 2 ^ 600) * (Fin (1 / 2 ^ 600) - Fin 0) = Fin 0"
    unfolding r using u by (simp only: uminus_double.simps times_double.simps)
  have b: "Fin 1 - Fin q * (Fin 1 - std_exp (Fin 0)) = Fin 1"
    by (simp add: minus_Fin)
  have c: "Fin 0 - std_log (Fin 1) / Fin (1 / 2 ^ 600) = Fin 0"
    by (simp add: minus_Fin)
  have "draw_magnitude (Fin q) (Fin 0) (Fin (1 / 2 ^ 600)) (Fin (1 / 2 ^ 600)) = Fin 0"
    unfolding draw_magnitude_def a b c ..
  then show ?thesis by simp
qed


section \<open>A variate at the end of the interval\<close>

text \<open>
  Claim C8 at an input where the code misses it: the variate \<open>0\<close>. The source draws every
  variate from \<open>std::uniform_real_distribution<double>(0.0, 1.0)\<close>, which the C++ standard
  specifies on the half-open interval from \<open>0\<close> to \<open>1\<close>, the lower end included, and passes it
  to \<open>log\<close> as it comes. For \<open>q = 0\<close>, any finite time \<open>t\<close> and the background rate \<open>1\<close> of
  \<open>unit_process\<close>, \<open>log(0)\<close> is \<open>-inf\<close> and \<open>next_background_occurrence\<close> returns \<open>+inf\<close>, which is
  not a finite time.
\<close>

theorem zero_variate_ends_background:
  "next_background_occurrence (Fin 0) (Fin t) unit_process = PInf
   \<and> \<not> is_finite (next_background_occurrence (Fin 0) (Fin t) unit_process)"
  by (simp add: next_background_occurrence_def unit_process_def minus_double_def)

text \<open>
  A variate inside the interval overflows the same way when the background rate is small: with
  the smallest positive double, \<open>2^-1074\<close> per second, as rate and \<open>q = 1/2\<close> the quotient
  \<open>log(q) / mu_0\<close> is beyond the range of a double, and the candidate is \<open>+inf\<close>.
\<close>

lemma fl_overflow_neg: "r \<le> - (2 ^ 1024 - 2 ^ 970) \<Longrightarrow> fl r = MInf"
  by (simp add: fl_def)

lemma slow_rate_overflows: "fl (ln (1 / 2) / (1 / 2 ^ 1074)) = MInf"
proof -
  have "ln (1 / 2 :: real) / (1 / 2 ^ 1074) = ln (1 / 2) * 2 ^ 1074" by simp
  also have "\<dots> \<le> - (1 / 2) * 2 ^ 1074"
    using ln_half_bounds(1) by (intro mult_right_mono) simp_all
  also have "\<dots> \<le> - (2 ^ 1024 - 2 ^ 970 :: real)" by simp
  finally show ?thesis by (rule fl_overflow_neg)
qed

lemma slow_rate_candidate_infinite:
  "next_background_occurrence (Fin (1 / 2)) (Fin 0)
       (unit_process\<lparr>P_mu_0 := Fin (1 / 2 ^ 1074)\<rparr>)
     = PInf"
proof -
  have l: "std_log (Fin (1 / 2)) = Fin (ln (1 / 2))"
    using ln_half_bounds by (simp add: fl_in_range)
  have d: "Fin (ln (1 / 2)) / Fin (1 / 2 ^ 1074) = MInf"
    using slow_rate_overflows by (simp only: divide_double.simps) simp
  have m: "P_mu_0 (unit_process\<lparr>P_mu_0 := Fin (1 / 2 ^ 1074)\<rparr>) = Fin (1 / 2 ^ 1074)"
    by simp
  have "next_background_occurrence (Fin (1 / 2)) (Fin 0)
          (unit_process\<lparr>P_mu_0 := Fin (1 / 2 ^ 1074)\<rparr>)
      = Fin 0 - std_log (Fin (1 / 2)) / Fin (1 / 2 ^ 1074)"
    by (simp only: next_background_occurrence_def m)
  also have "\<dots> = PInf"
    unfolding l d by (simp add: minus_double_def)
  finally show ?thesis .
qed

end
